theory Spec2Isabelle
  imports Main "HOL-Library.Char_ord" "HOL-Library.List_Lexorder"
begin

section \<open>Go library functions used by main.go\<close>

text \<open>
  Go strings are byte sequences; \<^typ>\<open>string\<close> is a list of 8-bit characters, so the
  two agree.  The functions below are \<^verbatim>\<open>strings.HasPrefix\<close>, \<^verbatim>\<open>strings.HasSuffix\<close>,
  \<^verbatim>\<open>strings.TrimSuffix\<close> and \<^verbatim>\<open>strings.Join\<close>.
\<close>

definition HasPrefix :: "string \<Rightarrow> string \<Rightarrow> bool" where
  "HasPrefix s p = (take (length p) s = p)"

definition HasSuffix :: "string \<Rightarrow> string \<Rightarrow> bool" where
  "HasSuffix s p = (length p \<le> length s \<and> drop (length s - length p) s = p)"

definition TrimSuffix :: "string \<Rightarrow> string \<Rightarrow> string" where
  "TrimSuffix s p = (if HasSuffix s p then take (length s - length p) s else s)"

fun Join :: "string list \<Rightarrow> string \<Rightarrow> string" where
  "Join [] sep = []"
| "Join [x] sep = x"
| "Join (x # y # ys) sep = x @ sep @ Join (y # ys) sep"

text \<open>
  A value of Go's \<^verbatim>\<open>any\<close>, restricted to the dynamic types the filter language and the
  record writers are used with: nil, bool, int, string and \<^verbatim>\<open>map[string]any\<close>.  A map is
  given as the list of its entries in the order in which the single \<^verbatim>\<open>range\<close> loop that
  visits it happens to iterate (Go leaves that order unspecified), so a property that is
  to hold of a Go map has to hold for every ordering of the list.
\<close>

datatype any = VNil | VBool bool | VInt int | VStr string | VMap "(string \<times> any) list"

fun digits :: "nat \<Rightarrow> string" where
  "digits n = (if n < 10 then [char_of (48 + n)]
               else digits (n div 10) @ [char_of (48 + n mod 10)])"

definition Itoa :: "int \<Rightarrow> string" where
  "Itoa i = (if i < 0 then ''-'' @ digits (nat (- i)) else digits (nat i))"

text \<open>The verb \<^verbatim>\<open>%v\<close> of package fmt: a map is printed with its keys sorted.\<close>

primrec fmt_v :: "any \<Rightarrow> string" where
  "fmt_v VNil = ''<nil>''"
| "fmt_v (VBool b) = (if b then ''true'' else ''false'')"
| "fmt_v (VInt i) = Itoa i"
| "fmt_v (VStr s) = s"
| "fmt_v (VMap kvs) =
     ''map['' @ Join (map (\<lambda>(k, s). k @ '':'' @ s)
                       (sort_key fst (map (map_prod id fmt_v) kvs))) '' '' @ '']''"

text \<open>
  An error value is either made by \<^verbatim>\<open>fmt.Errorf\<close> in main.go or comes from the store
  driver; \<open>Error\<close> is the method \<^verbatim>\<open>err.Error()\<close> that \<^verbatim>\<open>%s\<close> prints.  A failed type
  assertion \<^verbatim>\<open>value.(T)\<close> panics.
\<close>

datatype error = Errorf string | StoreError string

fun Error :: "error \<Rightarrow> string" where
  "Error (Errorf s) = s"
| "Error (StoreError s) = s"

datatype panic = InterfaceConversion

definition dquote :: string where
  "dquote = [CHR 0x22]"

definition squote :: string where
  "squote = [CHR 0x27]"

section \<open>The descriptor\<close>

text \<open>
  \<^verbatim>\<open>map[string]string\<close> as an association list; indexing a missing key gives the empty
  string.  \<^verbatim>\<open>CRUD.Structure\<close> is an association list from column names to property bags,
  looked up with \<^const>\<open>map_of\<close>.  The handle \<^verbatim>\<open>CRUD.DB\<close> is passed to each operation
  explicitly and returned updated.
\<close>

type_synonym props = "(string \<times> string) list"

definition get_prop :: "props \<Rightarrow> string \<Rightarrow> string" where
  "get_prop properties k = (case map_of properties k of None \<Rightarrow> '''' | Some v \<Rightarrow> v)"

record CRUD =
  Table :: string
  Structure :: "(string \<times> props) list"

definition NewCRUD :: "string \<Rightarrow> (string \<times> props) list \<Rightarrow> CRUD" where
  "NewCRUD table structure = \<lparr>Table = table, Structure = structure\<rparr>"

text \<open>
  A \<^verbatim>\<open>range\<close> loop over a map visits every entry once, in an order the language does not
  fix.  Each loop over \<^verbatim>\<open>c.Structure\<close> or over the input map takes the order it uses as
  an argument; \<open>range_order m xs\<close> says that \<open>xs\<close> is such an order for the map \<open>m\<close>.
\<close>

definition range_order :: "('k \<times> 'v) list \<Rightarrow> ('k \<times> 'v) list \<Rightarrow> bool" where
  "range_order m xs = (distinct (map fst xs) \<and> set xs = set m)"

section \<open>The store handle\<close>

text \<open>
  \<^verbatim>\<open>*sql.DB\<close>: the store is an external collaborator, so its reactions are the three
  functions of a driver over a store state of any type.  The handle records every call
  made through it.  A row of \<^verbatim>\<open>SHOW COLUMNS\<close> is what \<^verbatim>\<open>rows.Scan\<close> delivers: five
  \<^verbatim>\<open>sql.NullString\<close> (\<open>None\<close> for NULL) and one string, or the error of the scan.
\<close>

datatype call = ExecCall string "any list" | QueryRowCall string | QueryCall string

record live_row =
  r_field :: "string option"
  r_colType :: "string option"
  r_isNull :: "string option"
  r_key :: "string option"
  r_defaultValue :: "string option"
  r_extra :: string

record 's driver =
  exec :: "string \<Rightarrow> any list \<Rightarrow> 's \<Rightarrow> string option \<times> 's"
  query_row_int :: "string \<Rightarrow> 's \<Rightarrow> string + int"
  query_rows :: "string \<Rightarrow> 's \<Rightarrow> string + (string + live_row) list"

record 's DB =
  driver :: "'s driver"
  store :: 's
  calls :: "call list"

definition DB_Exec :: "'s DB \<Rightarrow> string \<Rightarrow> any list \<Rightarrow> error option \<times> 's DB" where
  "DB_Exec db query args =
     (case exec (driver db) query args (store db) of
        (r, s') \<Rightarrow> (map_option StoreError r,
                    db\<lparr>store := s', calls := calls db @ [ExecCall query args]\<rparr>))"

definition DB_QueryRow_Scan :: "'s DB \<Rightarrow> string \<Rightarrow> (error + int) \<times> 's DB" where
  "DB_QueryRow_Scan db query =
     (map_sum StoreError id (query_row_int (driver db) query (store db)),
      db\<lparr>calls := calls db @ [QueryRowCall query]\<rparr>)"

definition DB_Query :: "'s DB \<Rightarrow> string \<Rightarrow> (error + (string + live_row) list) \<times> 's DB" where
  "DB_Query db query =
     (map_sum StoreError id (query_rows (driver db) query (store db)),
      db\<lparr>calls := calls db @ [QueryCall query]\<rparr>)"

definition String :: "string option \<Rightarrow> string" where
  "String ns = (case ns of None \<Rightarrow> '''' | Some s \<Rightarrow> s)"

section \<open>Create, Update, Delete\<close>

text \<open>The first loop of \<^verbatim>\<open>Create\<close> (lines 31-37).\<close>

fun Create_check :: "(string \<times> props) list \<Rightarrow> (string \<times> any) list \<Rightarrow> error option" where
  "Create_check [] data = None"
| "Create_check ((col, properties) # rest) data =
     (if get_prop properties ''NOT_NULL'' = ''true'' \<and> get_prop properties ''DEFAULT'' = ''''
         \<and> get_prop properties ''AUTO_INCREMENT'' \<noteq> ''true''
      then (if map_of data col = None
            then Some (Errorf (''field '' @ squote @ col @ squote @ '' cannot be null''))
            else Create_check rest data)
      else Create_check rest data)"

definition index_any :: "(string \<times> any) list \<Rightarrow> string \<Rightarrow> any" where
  "index_any data col = (case map_of data col of None \<Rightarrow> VNil | Some v \<Rightarrow> v)"

text \<open>
  \<open>Create c ord1 ord2 data db\<close>: \<open>ord1\<close> and \<open>ord2\<close> are the orders of the two loops
  over \<^verbatim>\<open>c.Structure\<close>.
\<close>

definition Create ::
  "CRUD \<Rightarrow> (string \<times> props) list \<Rightarrow> (string \<times> props) list \<Rightarrow> (string \<times> any) list
     \<Rightarrow> 's DB \<Rightarrow> error option \<times> 's DB" where
  "Create c ord1 ord2 data db =
     (case Create_check ord1 data of
        Some err \<Rightarrow> (Some err, db)
      | None \<Rightarrow>
          (let columns = map fst ord2;
               values = map (\<lambda>(col, properties). index_any data col) ord2;
               placeholders = map (\<lambda>(col, properties). ''?'') ord2;
               query = ''INSERT INTO '' @ Table c @ '' ('' @ Join columns '', ''
                         @ '') VALUES ('' @ Join placeholders '', '' @ '')''
           in DB_Exec db query values))"

text \<open>The first loop of \<^verbatim>\<open>Update\<close> (lines 61-67).\<close>

fun Update_check :: "(string \<times> props) list \<Rightarrow> (string \<times> any) list \<Rightarrow> error option" where
  "Update_check [] data = None"
| "Update_check ((col, properties) # rest) data =
     (if get_prop properties ''NOT_NULL'' = ''true'' \<and> get_prop properties ''DEFAULT'' = ''''
         \<and> get_prop properties ''AUTO_INCREMENT'' \<noteq> ''true''
      then (if map_of data col = None
            then Some (Errorf (''field '' @ squote @ col @ squote @ '' cannot be null''))
            else Update_check rest data)
      else Update_check rest data)"

text \<open>
  The second loop of \<^verbatim>\<open>Update\<close> ranges over the input map, in the order \<open>dord\<close>; the
  lookup \<^verbatim>\<open>data[col]\<close> inside it is made in the map itself.
\<close>

fun Update_set ::
  "(string \<times> any) list \<Rightarrow> (string \<times> any) list \<Rightarrow> string list \<Rightarrow> any list
     \<Rightarrow> string list \<times> any list" where
  "Update_set [] data setClauses values = (setClauses, values)"
| "Update_set ((col, v) # rest) data setClauses values =
     (case map_of data col of
        Some val \<Rightarrow> Update_set rest data (setClauses @ [col @ '' = ?'']) (values @ [val])
      | None \<Rightarrow> Update_set rest data setClauses values)"

definition Update ::
  "CRUD \<Rightarrow> (string \<times> props) list \<Rightarrow> (string \<times> any) list \<Rightarrow> string \<Rightarrow> (string \<times> any) list
     \<Rightarrow> 's DB \<Rightarrow> error option \<times> 's DB" where
  "Update c ord1 dord id' data db =
     (case Update_check ord1 data of
        Some err \<Rightarrow> (Some err, db)
      | None \<Rightarrow>
          (case Update_set dord data [] [] of
             (setClauses, values) \<Rightarrow>
               (let query = ''UPDATE '' @ Table c @ '' SET '' @ Join setClauses '', ''
                              @ '' WHERE id = ?''
                in DB_Exec db query (values @ [VStr id']))))"


section \<open>PrepareWhere\<close>

text \<open>
  The suffix dispatch of the leaf branch (lines 126-147): the column, the comparison and
  the value to print.  The assertion \<^verbatim>\<open>value.(string)\<close> of the \<^verbatim>\<open>%\<close> case panics on
  any other dynamic type.
\<close>

definition leaf_parts :: "string \<Rightarrow> any \<Rightarrow> panic + (string \<times> string \<times> any)" where
  "leaf_parts key val =
     (if HasSuffix key ''>'' then Inr (TrimSuffix key ''>'', ''>'', val)
      else if HasSuffix key ''<'' then Inr (TrimSuffix key ''<'', ''<'', val)
      else if HasSuffix key ''='' then Inr (TrimSuffix key ''='', ''='', val)
      else if HasSuffix key ''%'' then
        (case val of
           VStr s \<Rightarrow> Inr (TrimSuffix key ''%'', ''LIKE'', VStr (''%'' @ s @ ''%''))
         | _ \<Rightarrow> Inl InterfaceConversion)
      else Inr (key, ''='', val))"

text \<open>
  \<open>where_loop\<close> is the \<^verbatim>\<open>range\<close> loop of \<^verbatim>\<open>PrepareWhereWithRootLogic\<close> over the
  entries that are left, with the slices \<^verbatim>\<open>conditions\<close> and \<^verbatim>\<open>errors\<close> built so far.
  The two returns of the function are its last lines: with at least one condition the
  error result is \<^verbatim>\<open>nil\<close>, the empty list.
\<close>

function PrepareWhereWithRootLogic ::
    "CRUD \<Rightarrow> (string \<times> any) list \<Rightarrow> string \<Rightarrow> panic + (string \<times> error list)"
  and where_loop ::
    "CRUD \<Rightarrow> (string \<times> any) list \<Rightarrow> string list \<Rightarrow> error list
       \<Rightarrow> panic + (string list \<times> error list)"
where
  "PrepareWhereWithRootLogic c filt logic =
     (case where_loop c filt [] [] of
        Inl p \<Rightarrow> Inl p
      | Inr (conditions, errors) \<Rightarrow>
          if length conditions > 0
          then Inr (Join conditions ('' '' @ logic @ '' ''), [])
          else Inr ([], errors))"
| "where_loop c [] conditions errors = Inr (conditions, errors)"
| "where_loop c ((key, val) # rest) conditions errors =
     (if key = ''[OR]'' \<or> HasPrefix key ''[OR]'' then
        (case val of
           VMap orGroup \<Rightarrow>
             (case PrepareWhereWithRootLogic c orGroup ''OR'' of
                Inl p \<Rightarrow> Inl p
              | Inr (orClause, orErrors) \<Rightarrow>
                  where_loop c rest
                    (if orClause \<noteq> [] then conditions @ [''('' @ orClause @ '')'']
                     else conditions)
                    (if length orErrors > 0 then errors @ orErrors else errors))
         | _ \<Rightarrow> Inl InterfaceConversion)
      else if key = ''[AND]'' \<or> HasPrefix key ''[AND]'' then
        (case val of
           VMap andGroup \<Rightarrow>
             (case PrepareWhereWithRootLogic c andGroup ''AND'' of
                Inl p \<Rightarrow> Inl p
              | Inr (andClause, andErrors) \<Rightarrow>
                  where_loop c rest
                    (if andClause \<noteq> [] then conditions @ [''('' @ andClause @ '')'']
                     else conditions)
                    (if length andErrors > 0 then errors @ andErrors else errors))
         | _ \<Rightarrow> Inl InterfaceConversion)
      else
        (case leaf_parts key val of
           Inl p \<Rightarrow> Inl p
         | Inr (column, comparison, val') \<Rightarrow>
             (case map_of (Structure c) column of
                None \<Rightarrow>
                  where_loop c rest conditions
                    (errors @ [Errorf (''field '' @ squote @ column @ squote
                                        @ '' does not exist in the structure'')])
              | Some properties \<Rightarrow>
                  where_loop c rest
                    (conditions @ [column @ '' '' @ comparison @ '' '' @ dquote
                                    @ fmt_v val' @ dquote])
                    errors)))"
  by pat_completeness auto
termination
  by (relation "measure (\<lambda>x. case x of
        Inl (c, filt, logic) \<Rightarrow> Suc (size_list (size_prod (\<lambda>k. 0) size) filt)
      | Inr (c, rest, conditions, errors) \<Rightarrow> size_list (size_prod (\<lambda>k. 0) size) rest)")
    auto

definition PrepareWhere :: "CRUD \<Rightarrow> (string \<times> any) list \<Rightarrow> panic + (string \<times> error list)" where
  "PrepareWhere c filt = PrepareWhereWithRootLogic c filt ''AND''"

section \<open>Synchronize\<close>

text \<open>
  The three optional parts that the create, modify and add statements append to a column
  definition, each written out in the source at lines 190-199, 244-252 and 261-269.
\<close>

definition column_attrs :: "props \<Rightarrow> string" where
  "column_attrs properties =
     (if get_prop properties ''NOT_NULL'' = ''true'' then '' NOT NULL'' else [])
     @ (if get_prop properties ''DEFAULT'' \<noteq> []
        then '' DEFAULT '' @ get_prop properties ''DEFAULT'' else [])
     @ (if get_prop properties ''AUTO_INCREMENT'' = ''true'' then '' AUTO_INCREMENT'' else [])"

text \<open>The loop of the creation branch (lines 188-201).\<close>

fun create_loop :: "(string \<times> props) list \<Rightarrow> string list \<Rightarrow> string \<Rightarrow> string list \<times> string" where
  "create_loop [] fieldDefinitions primaryKeyColumn = (fieldDefinitions, primaryKeyColumn)"
| "create_loop ((col, properties) # rest) fieldDefinitions primaryKeyColumn =
     create_loop rest
       (fieldDefinitions @ [col @ '' '' @ get_prop properties ''TYPE'' @ column_attrs properties])
       (if get_prop properties ''AUTO_INCREMENT'' = ''true'' then col else primaryKeyColumn)"

text \<open>The loop over the rows of \<^verbatim>\<open>SHOW COLUMNS\<close> (lines 219-234).\<close>

fun scan_rows ::
  "(string + live_row) list \<Rightarrow> (string \<rightharpoonup> props) \<Rightarrow> error + (string \<rightharpoonup> props)" where
  "scan_rows [] currentColumns = Inr currentColumns"
| "scan_rows (Inl err # rest) currentColumns = Inl (StoreError err)"
| "scan_rows (Inr r # rest) currentColumns =
     scan_rows rest
       (currentColumns(String (r_field r) \<mapsto>
          [(''COL_TYPE'', String (r_colType r)),
           (''NULL'', String (r_isNull r)),
           (''KEY'', String (r_key r)),
           (''DEFAULT'', String (r_defaultValue r)),
           (''EXTRA'', r_extra r)]))"

text \<open>The reconciliation loop (lines 237-275).\<close>

fun alter_loop ::
  "CRUD \<Rightarrow> (string \<times> props) list \<Rightarrow> (string \<rightharpoonup> props) \<Rightarrow> 's DB \<Rightarrow> error option \<times> 's DB" where
  "alter_loop c [] currentColumns db = (None, db)"
| "alter_loop c ((col, properties) # rest) currentColumns db =
     (case currentColumns col of
        Some currentColInfo \<Rightarrow>
          if get_prop currentColInfo ''COL_TYPE'' \<noteq> get_prop properties ''TYPE''
             \<or> (get_prop properties ''NOT_NULL'' = ''true''
                  \<and> get_prop currentColInfo ''NULL'' = ''YES'')
             \<or> (get_prop properties ''DEFAULT'' \<noteq> []
                  \<and> get_prop currentColInfo ''DEFAULT'' \<noteq> get_prop properties ''DEFAULT'')
          then
            (let alterQuery = ''ALTER TABLE '' @ Table c @ '' MODIFY '' @ col @ '' ''
                                @ get_prop properties ''TYPE'' @ column_attrs properties
             in case DB_Exec db alterQuery [] of
                  (Some err, db') \<Rightarrow>
                    (Some (Errorf (''failed to alter table structure: '' @ Error err
                                    @ ''; query: '' @ alterQuery)), db')
                | (None, db') \<Rightarrow> alter_loop c rest currentColumns db')
          else alter_loop c rest currentColumns db
      | None \<Rightarrow>
          (let addQuery = ''ALTER TABLE '' @ Table c @ '' ADD COLUMN '' @ col @ '' ''
                            @ get_prop properties ''TYPE'' @ column_attrs properties
           in case DB_Exec db addQuery [] of
                (Some err, db') \<Rightarrow>
                  (Some (Errorf (''failed to add new column: '' @ Error err
                                  @ ''; query: '' @ addQuery)), db')
              | (None, db') \<Rightarrow> alter_loop c rest currentColumns db'))"

text \<open>The primary-key loop (lines 278-290); it stops at the first auto-increment column.\<close>

fun pk_loop ::
  "CRUD \<Rightarrow> (string \<times> props) list \<Rightarrow> (string \<rightharpoonup> props) \<Rightarrow> 's DB \<Rightarrow> error option \<times> 's DB" where
  "pk_loop c [] currentColumns db = (None, db)"
| "pk_loop c ((col, properties) # rest) currentColumns db =
     (if get_prop properties ''AUTO_INCREMENT'' = ''true'' then
        (case currentColumns col of
           Some currentColInfo \<Rightarrow>
             if get_prop currentColInfo ''KEY'' \<noteq> ''PRI'' then
               (let primaryKeyQuery = ''ALTER TABLE '' @ Table c @ '' ADD PRIMARY KEY (''
                                        @ col @ '')''
                in case DB_Exec db primaryKeyQuery [] of
                     (Some err, db') \<Rightarrow>
                       (Some (Errorf (''failed to set primary key: '' @ Error err
                                       @ ''; query: '' @ primaryKeyQuery)), db')
                   | (None, db') \<Rightarrow> (None, db'))
             else (None, db)
         | None \<Rightarrow> (None, db))
      else pk_loop c rest currentColumns db)"

definition exists_query :: "CRUD \<Rightarrow> string" where
  "exists_query c =
     ''SELECT COUNT(*) FROM information_schema.tables WHERE table_schema = DATABASE() AND table_name = ''
     @ squote @ Table c @ squote"

definition create_query :: "CRUD \<Rightarrow> (string \<times> props) list \<Rightarrow> string" where
  "create_query c ord =
     (case create_loop ord [] [] of
        (fieldDefinitions, primaryKeyColumn) \<Rightarrow>
          ''CREATE TABLE '' @ Table c @ '' ('' @ Join fieldDefinitions '', ''
            @ '', PRIMARY KEY ('' @ primaryKeyColumn @ ''))'')"

text \<open>
  \<open>Synchronize c ord1 ord2 db\<close>: \<open>ord1\<close> is the order of the first loop over
  \<^verbatim>\<open>c.Structure\<close> that the call runs (the creation loop, or the reconciliation loop when
  the table exists), \<open>ord2\<close> the order of the primary-key loop.
\<close>

definition Synchronize ::
  "CRUD \<Rightarrow> (string \<times> props) list \<Rightarrow> (string \<times> props) list \<Rightarrow> 's DB \<Rightarrow> error option \<times> 's DB" where
  "Synchronize c ord1 ord2 db =
     (let query = exists_query c in
      case DB_QueryRow_Scan db query of
        (Inl err, db1) \<Rightarrow>
          (Some (Errorf (''failed to check if table exists: '' @ Error err
                          @ ''; query: '' @ query)), db1)
      | (Inr exists, db1) \<Rightarrow>
          if exists = 0 then
            (let createTableQuery = create_query c ord1
             in case DB_Exec db1 createTableQuery [] of
                  (Some err, db2) \<Rightarrow>
                    (Some (Errorf (''failed to create table: '' @ Error err
                                    @ ''; query: '' @ createTableQuery)), db2)
                | (None, db2) \<Rightarrow> (None, db2))
          else
            (case DB_Query db1 (''SHOW COLUMNS FROM '' @ Table c) of
               (Inl err, db2) \<Rightarrow>
                 (Some (Errorf (''failed to show columns: '' @ Error err
                                 @ ''; query: SHOW COLUMNS FROM '' @ Table c)), db2)
             | (Inr rows, db2) \<Rightarrow>
                 (case scan_rows rows Map.empty of
                    Inl err \<Rightarrow>
                      (Some (Errorf (''failed to scan column: '' @ Error err
                                      @ ''; query: SHOW COLUMNS FROM '' @ Table c)), db2)
                  | Inr currentColumns \<Rightarrow>
                      (case alter_loop c ord1 currentColumns db2 of
                         (Some err, db3) \<Rightarrow> (Some err, db3)
                       | (None, db3) \<Rightarrow> pk_loop c ord2 currentColumns db3))))"

section \<open>The user-record writer\<close>

record UserCRUD =
  embedded :: CRUD

definition userStructure :: "(string \<times> props) list" where
  "userStructure =
     [(''id'', [(''TYPE'', ''int''), (''NAME'', ''ID''), (''NOT_NULL'', ''true''),
                (''DEFAULT'', []), (''INDEX'', ''yes''), (''UNIQUE'', ''yes''),
                (''AUTO_INCREMENT'', ''true'')]),
      (''name'', [(''TYPE'', ''varchar(255)''), (''NAME'', ''Name''), (''NOT_NULL'', ''true''),
                  (''DEFAULT'', []), (''INDEX'', ''yes''), (''UNIQUE'', ''no''),
                  (''AUTO_INCREMENT'', ''false'')]),
      (''email'', [(''TYPE'', ''varchar(255)''), (''NAME'', ''Email''), (''NOT_NULL'', ''true''),
                   (''DEFAULT'', []), (''INDEX'', ''no''), (''UNIQUE'', ''yes''),
                   (''AUTO_INCREMENT'', ''false'')])]"

definition NewUserCRUD :: UserCRUD where
  "NewUserCRUD = \<lparr>embedded = NewCRUD ''users'' userStructure\<rparr>"


section \<open>Dynamic types and group keys\<close>

text \<open>
  The dynamic type of a value, as the two type assertions of the filter compiler test it,
  and the test that sends a key to one of the two group branches (lines 106 and 115).
\<close>

definition is_string :: "any \<Rightarrow> bool" where
  "is_string v = (case v of VStr s \<Rightarrow> True | _ \<Rightarrow> False)"

definition is_map :: "any \<Rightarrow> bool" where
  "is_map v = (case v of VMap g \<Rightarrow> True | _ \<Rightarrow> False)"

definition is_group_key :: "string \<Rightarrow> bool" where
  "is_group_key key =
     (key = ''[OR]'' \<or> HasPrefix key ''[OR]'' \<or> key = ''[AND]'' \<or> HasPrefix key ''[AND]'')"

section \<open>Required columns\<close>

text \<open>
  The test both validation loops apply to a column's property bag (lines 32 and 62):
  NOT NULL, no default, not auto-increment.
\<close>

definition required :: "props \<Rightarrow> bool" where
  "required properties =
     (get_prop properties ''NOT_NULL'' = ''true'' \<and> get_prop properties ''DEFAULT'' = []
      \<and> get_prop properties ''AUTO_INCREMENT'' \<noteq> ''true'')"

section \<open>The store after table creation\<close>

text \<open>
  Modelled from the spec: the store that executes the statements (a MySQL server behind
  \<^verbatim>\<open>database/sql\<close>) is not part of the repository, so what it reports for a table that
  \<^verbatim>\<open>Synchronize\<close> has just created is taken from the specification (sections 4.1 and 8):
  the live schema contains every column of the create statement, in the statement's
  order, with the declared type, nullability and default, and the column named in the
  \<^verbatim>\<open>PRIMARY KEY\<close> clause is flagged \<^verbatim>\<open>PRI\<close>.  \<open>created_rows ord primaryKeyColumn\<close> are
  the rows of \<^verbatim>\<open>SHOW COLUMNS\<close> for a table created from the columns \<open>ord\<close>.
\<close>

definition created_rows :: "(string \<times> props) list \<Rightarrow> string \<Rightarrow> live_row list" where
  "created_rows ord primaryKeyColumn =
     map (\<lambda>(col, properties).
           \<lparr>r_field = Some col,
            r_colType = Some (get_prop properties ''TYPE''),
            r_isNull = Some (if get_prop properties ''NOT_NULL'' = ''true'' then ''NO'' else ''YES''),
            r_key = Some (if col = primaryKeyColumn then ''PRI'' else []),
            r_defaultValue = (if get_prop properties ''DEFAULT'' = [] then None
                              else Some (get_prop properties ''DEFAULT'')),
            r_extra = (if get_prop properties ''AUTO_INCREMENT'' = ''true''
                       then ''auto_increment'' else [])\<rparr>) ord"




text \<open>
  A store for the examples: the table is absent until the first statement is executed;
  from then on it exists and has the columns of the user descriptor, with \<^verbatim>\<open>id\<close> as
  primary key.  Every statement succeeds.
\<close>

definition demo_driver :: "bool driver" where
  "demo_driver =
     \<lparr>exec = (\<lambda>query args s. (None, True)),
      query_row_int = (\<lambda>query s. Inr (if s then 1 else 0)),
      query_rows = (\<lambda>query s. Inr (map Inr (created_rows userStructure ''id'')))\<rparr>"

definition demo_db :: "bool DB" where
  "demo_db = \<lparr>driver = demo_driver, store = False, calls = []\<rparr>"




section \<open>Iteration orders\<close>

lemma range_order_two:
  assumes "range_order [a, b] g" and "fst a \<noteq> fst b"
  shows "g = [a, b] \<or> g = [b, a]"
proof -
  from assms(1) have d: "distinct g" and s: "set g = {a, b}"
    by (auto simp: range_order_def distinct_map)
  from assms(2) have ab: "a \<noteq> b" by auto
  from d have "length g = card (set g)" by (simp add: distinct_card)
  with s ab have "length g = 2" by simp
  then obtain x y where g: "g = [x, y]"
    by (metis (no_types, opaque_lifting) length_0_conv length_Suc_conv numeral_2_eq_2)
  with s d ab show ?thesis by (auto simp: doubleton_eq_iff)
qed

lemma range_order_map_of:
  assumes "range_order m xs" and "(k, v) \<in> set xs"
  shows "map_of m k = Some v"
proof -
  from assms have km: "(k, v) \<in> set m" by (simp add: range_order_def)
  then obtain v' where v': "map_of m k = Some v'"
    by (metis weak_map_of_SomeI)
  then have "(k, v') \<in> set m" by (rule map_of_SomeD)
  with assms(1) have "(k, v') \<in> set xs" by (simp add: range_order_def)
  moreover from assms(1) have "distinct (map fst xs)" by (simp add: range_order_def)
  ultimately have "v' = v" using assms(2) by (meson eq_key_imp_eq_value)
  with v' show ?thesis by simp
qed

section \<open>The filter compiler\<close>

lemmas str_defs = HasPrefix_def HasSuffix_def TrimSuffix_def leaf_parts_def dquote_def squote_def

lemma fmt_v_1: "fmt_v (VInt 1) = ''1''"
  by code_simp

lemma fmt_v_2: "fmt_v (VInt 2) = ''2''"
  by code_simp

text \<open>
  C2.  For the filter \<^verbatim>\<open>{"ghost": "x"}\<close> and a descriptor without a column \<^verbatim>\<open>ghost\<close>,
  \<^verbatim>\<open>PrepareWhere\<close> returns the empty predicate and exactly one error, which names
  \<^verbatim>\<open>ghost\<close>.
\<close>

theorem PrepareWhere_ghost:
  assumes "map_of (Structure c) ''ghost'' = None"
  shows "PrepareWhere c [(''ghost'', VStr ''x'')] =
           Inr ([], [Errorf ''field 'ghost' does not exist in the structure''])"
  using assms by (simp add: PrepareWhere_def str_defs)

theorem PrepareWhere_ghost_witness:
  "map_of (Structure (embedded NewUserCRUD)) ''ghost'' = None \<and>
   PrepareWhere (embedded NewUserCRUD) [(''ghost'', VStr ''x'')] =
     Inr ([], [Errorf ''field 'ghost' does not exist in the structure''])"
proof -
  have h: "map_of (Structure (embedded NewUserCRUD)) ''ghost'' = None"
    by (simp add: NewUserCRUD_def NewCRUD_def userStructure_def)
  show ?thesis using h PrepareWhere_ghost [OF h] by simp
qed

text \<open>
  C1.  A filter with a valid and an invalid leaf entry at the same level, here
  \<^verbatim>\<open>{"name": "Bob", "ghost": "x"}\<close> against the user descriptor, in both iteration orders:
  the call returns the predicate of the valid entry and \<^verbatim>\<open>nil\<close> for the errors, so the
  error gathered for \<^verbatim>\<open>ghost\<close> does not reach the caller.
\<close>

theorem PrepareWhere_drops_errors:
  "PrepareWhere (embedded NewUserCRUD) [(''name'', VStr ''Bob''), (''ghost'', VStr ''x'')] =
     Inr (''name = '' @ dquote @ ''Bob'' @ dquote, [])
   \<and> PrepareWhere (embedded NewUserCRUD) [(''ghost'', VStr ''x''), (''name'', VStr ''Bob'')] =
     Inr (''name = '' @ dquote @ ''Bob'' @ dquote, [])"
  by (simp add: PrepareWhere_def NewUserCRUD_def NewCRUD_def userStructure_def str_defs)

text \<open>The same holds of every call: a non-empty predicate comes with no errors.\<close>

lemma nonempty_predicate_no_errors:
  "PrepareWhereWithRootLogic c filt logic = Inr (p, errs) \<Longrightarrow> p \<noteq> [] \<Longrightarrow> errs = []"
  by (auto split: sum.splits prod.splits if_splits)

text \<open>
  C3, as stated, at the other iteration order of the nested map
  \<^verbatim>\<open>{"id>": 1, "id<": 2}\<close>: the two conditions come out in the other order.
\<close>

theorem PrepareWhere_or_group_counterexample:
  "range_order [(''id>'', VInt 1), (''id<'', VInt 2)] [(''id<'', VInt 2), (''id>'', VInt 1)]
   \<and> PrepareWhere (embedded NewUserCRUD) [(''[OR]'', VMap [(''id<'', VInt 2), (''id>'', VInt 1)])]
       = Inr (''(id < '' @ dquote @ ''2'' @ dquote @ '' OR id > '' @ dquote @ ''1'' @ dquote @ '')'', [])
   \<and> PrepareWhere (embedded NewUserCRUD) [(''[OR]'', VMap [(''id<'', VInt 2), (''id>'', VInt 1)])]
       \<noteq> Inr (''(id > '' @ dquote @ ''1'' @ dquote @ '' OR id < '' @ dquote @ ''2'' @ dquote @ '')'', [])"
  by (simp add: range_order_def insert_commute PrepareWhere_def NewUserCRUD_def NewCRUD_def userStructure_def str_defs fmt_v_1 fmt_v_2 del: fmt_v.simps)

text \<open>
  C3, amended.  For the filter \<^verbatim>\<open>{"[OR]": {"id>": 1, "id<": 2}}\<close> and a descriptor
  with a column \<^verbatim>\<open>id\<close>, the nested map is iterated in one of two orders; the predicate
  is \<^verbatim>\<open>(id > "1" OR id < "2")\<close> in the first and \<^verbatim>\<open>(id < "2" OR id > "1")\<close> in the
  second, in both cases one parenthesised group joined by OR with the integers printed
  inside double quotes, and the error list is empty.
\<close>

theorem PrepareWhere_or_group:
  assumes "map_of (Structure c) ''id'' \<noteq> None"
      and "range_order [(''id>'', VInt 1), (''id<'', VInt 2)] g"
  shows "(g = [(''id>'', VInt 1), (''id<'', VInt 2)] \<or> g = [(''id<'', VInt 2), (''id>'', VInt 1)])
       \<and> (g = [(''id>'', VInt 1), (''id<'', VInt 2)] \<longrightarrow>
            PrepareWhere c [(''[OR]'', VMap g)] =
              Inr (''(id > '' @ dquote @ ''1'' @ dquote @ '' OR id < '' @ dquote @ ''2''
                     @ dquote @ '')'', []))
       \<and> (g = [(''id<'', VInt 2), (''id>'', VInt 1)] \<longrightarrow>
            PrepareWhere c [(''[OR]'', VMap g)] =
              Inr (''(id < '' @ dquote @ ''2'' @ dquote @ '' OR id > '' @ dquote @ ''1''
                     @ dquote @ '')'', []))"
proof -
  from assms(1) obtain p where p: "map_of (Structure c) ''id'' = Some p" by auto
  have "g = [(''id>'', VInt 1), (''id<'', VInt 2)] \<or> g = [(''id<'', VInt 2), (''id>'', VInt 1)]"
    using range_order_two [OF assms(2)] by simp
  moreover have "PrepareWhere c [(''[OR]'', VMap [(''id>'', VInt 1), (''id<'', VInt 2)])] =
      Inr (''(id > '' @ dquote @ ''1'' @ dquote @ '' OR id < '' @ dquote @ ''2''
             @ dquote @ '')'', [])"
    using p by (simp add: PrepareWhere_def str_defs fmt_v_1 fmt_v_2 del: fmt_v.simps)
  moreover have "PrepareWhere c [(''[OR]'', VMap [(''id<'', VInt 2), (''id>'', VInt 1)])] =
      Inr (''(id < '' @ dquote @ ''2'' @ dquote @ '' OR id > '' @ dquote @ ''1''
             @ dquote @ '')'', [])"
    using p by (simp add: PrepareWhere_def str_defs fmt_v_1 fmt_v_2 del: fmt_v.simps)
  ultimately show ?thesis by blast
qed

theorem PrepareWhere_or_group_witness:
  "map_of (Structure (embedded NewUserCRUD)) ''id'' \<noteq> None
   \<and> range_order [(''id>'', VInt 1), (''id<'', VInt 2)] [(''id>'', VInt 1), (''id<'', VInt 2)]
   \<and> PrepareWhere (embedded NewUserCRUD) [(''[OR]'', VMap [(''id>'', VInt 1), (''id<'', VInt 2)])] =
       Inr (''(id > '' @ dquote @ ''1'' @ dquote @ '' OR id < '' @ dquote @ ''2''
              @ dquote @ '')'', [])
   \<and> range_order [(''id>'', VInt 1), (''id<'', VInt 2)] [(''id<'', VInt 2), (''id>'', VInt 1)]
   \<and> PrepareWhere (embedded NewUserCRUD) [(''[OR]'', VMap [(''id<'', VInt 2), (''id>'', VInt 1)])] =
       Inr (''(id < '' @ dquote @ ''2'' @ dquote @ '' OR id > '' @ dquote @ ''1''
              @ dquote @ '')'', [])"
proof -
  have h1: "map_of (Structure (embedded NewUserCRUD)) ''id'' \<noteq> None"
    by (simp add: NewUserCRUD_def NewCRUD_def userStructure_def)
  have h2: "range_order [(''id>'', VInt 1), (''id<'', VInt 2)] [(''id>'', VInt 1), (''id<'', VInt 2)]"
    by (simp add: range_order_def)
  have h3: "range_order [(''id>'', VInt 1), (''id<'', VInt 2)] [(''id<'', VInt 2), (''id>'', VInt 1)]"
    by (simp add: range_order_def insert_commute)
  show ?thesis
    using h1 h2 h3 PrepareWhere_or_group [OF h1 h2] PrepareWhere_or_group [OF h1 h3] by simp
qed

text \<open>
  C4.  For the filter \<^verbatim>\<open>{"name": "Bob", "email%": "@example.com"}\<close> and a descriptor
  with the columns \<^verbatim>\<open>name\<close> and \<^verbatim>\<open>email\<close>, in whichever order the map is iterated,
  \<^verbatim>\<open>PrepareWhere\<close> returns the conjunction of \<^verbatim>\<open>name = "Bob"\<close> and
  \<^verbatim>\<open>email LIKE "%@example.com%"\<close> joined by AND (the value of the key with the suffix
  \<^verbatim>\<open>%\<close> wrapped in \<^verbatim>\<open>%\<close> on both sides), with an empty error list.
\<close>

theorem PrepareWhere_name_email:
  assumes "map_of (Structure c) ''name'' \<noteq> None" and "map_of (Structure c) ''email'' \<noteq> None"
      and "range_order [(''name'', VStr ''Bob''), (''email%'', VStr ''@example.com'')] f"
  shows "PrepareWhere c f =
           Inr (''name = '' @ dquote @ ''Bob'' @ dquote @ '' AND email LIKE '' @ dquote @ ''%@example.com%'' @ dquote, [])
       \<or> PrepareWhere c f =
           Inr (''email LIKE '' @ dquote @ ''%@example.com%'' @ dquote @ '' AND name = '' @ dquote @ ''Bob'' @ dquote, [])"
proof -
  from assms(1) obtain p where p: "map_of (Structure c) ''name'' = Some p" by auto
  from assms(2) obtain q where q: "map_of (Structure c) ''email'' = Some q" by auto
  have "f = [(''name'', VStr ''Bob''), (''email%'', VStr ''@example.com'')]
      \<or> f = [(''email%'', VStr ''@example.com''), (''name'', VStr ''Bob'')]"
    using range_order_two [OF assms(3)] by simp
  then show ?thesis
  proof
    assume "f = [(''name'', VStr ''Bob''), (''email%'', VStr ''@example.com'')]"
    then show ?thesis using p q by (simp add: PrepareWhere_def str_defs)
  next
    assume "f = [(''email%'', VStr ''@example.com''), (''name'', VStr ''Bob'')]"
    then show ?thesis using p q by (simp add: PrepareWhere_def str_defs)
  qed
qed

theorem PrepareWhere_name_email_witness:
  "map_of (Structure (embedded NewUserCRUD)) ''name'' \<noteq> None
   \<and> map_of (Structure (embedded NewUserCRUD)) ''email'' \<noteq> None
   \<and> range_order [(''name'', VStr ''Bob''), (''email%'', VStr ''@example.com'')]
        [(''name'', VStr ''Bob''), (''email%'', VStr ''@example.com'')]
   \<and> PrepareWhere (embedded NewUserCRUD) [(''name'', VStr ''Bob''), (''email%'', VStr ''@example.com'')] =
       Inr (''name = '' @ dquote @ ''Bob'' @ dquote @ '' AND email LIKE '' @ dquote
              @ ''%@example.com%'' @ dquote, [])"
proof -
  have h1: "map_of (Structure (embedded NewUserCRUD)) ''name'' \<noteq> None"
    by (simp add: NewUserCRUD_def NewCRUD_def userStructure_def)
  have h2: "map_of (Structure (embedded NewUserCRUD)) ''email'' \<noteq> None"
    by (simp add: NewUserCRUD_def NewCRUD_def userStructure_def)
  have h3: "range_order [(''name'', VStr ''Bob''), (''email%'', VStr ''@example.com'')]
              [(''name'', VStr ''Bob''), (''email%'', VStr ''@example.com'')]"
    by (simp add: range_order_def)
  have ne: "PrepareWhere (embedded NewUserCRUD)
              [(''name'', VStr ''Bob''), (''email%'', VStr ''@example.com'')] \<noteq>
            Inr (''email LIKE '' @ dquote @ ''%@example.com%'' @ dquote @ '' AND name = ''
                   @ dquote @ ''Bob'' @ dquote, [])"
    by (simp add: PrepareWhere_def NewUserCRUD_def NewCRUD_def userStructure_def str_defs)
  show ?thesis using h1 h2 h3 ne PrepareWhere_name_email [OF h1 h2 h3] by blast
qed

subsection \<open>Failed type assertions\<close>

lemma where_loop_step:
  assumes ih: "\<And>cs' es'. where_loop c rest cs' es' = Inl InterfaceConversion"
  shows "where_loop c ((k, v) # rest) cs es = Inl InterfaceConversion"
proof -
  have pe: "\<And>p::panic. p = InterfaceConversion"
    by (metis panic.exhaust)
  have grp: "\<And>g l. (case PrepareWhereWithRootLogic c g l of
                 Inl p \<Rightarrow> Inl p
               | Inr (clause, errs) \<Rightarrow>
                   where_loop c rest (if clause \<noteq> [] then cs @ [''('' @ clause @ '')''] else cs)
                     (if length errs > 0 then es @ errs else es)) = Inl InterfaceConversion"
    using ih pe by (simp split: sum.split prod.split del: PrepareWhereWithRootLogic.simps)
  have leaf: "(case leaf_parts k v of
           Inl p \<Rightarrow> Inl p
         | Inr (column, comparison, val') \<Rightarrow>
             (case map_of (Structure c) column of
                None \<Rightarrow>
                  where_loop c rest cs
                    (es @ [Errorf (''field '' @ squote @ column @ squote
                                        @ '' does not exist in the structure'')])
              | Some properties \<Rightarrow>
                  where_loop c rest
                    (cs @ [column @ '' '' @ comparison @ '' '' @ dquote
                                    @ fmt_v val' @ dquote])
                    es)) = Inl InterfaceConversion"
    using ih pe by (simp split: sum.split prod.split option.split)
  show ?thesis
    unfolding where_loop.simps
    by (simp only: grp leaf split: any.split if_split) simp
qed

lemma where_loop_bad_head:
  assumes "(is_group_key key \<and> \<not> is_map val)
           \<or> (\<not> is_group_key key \<and> HasSuffix key ''%'' \<and> \<not> is_string val)"
  shows "where_loop c ((key, val) # rest) conditions errors = Inl InterfaceConversion"
proof -
  from assms consider (g) "is_group_key key" "\<not> is_map val"
    | (l) "\<not> is_group_key key" "HasSuffix key ''%''" "\<not> is_string val" by blast
  then show ?thesis
  proof cases
    case g
    then show ?thesis
      by (cases val) (auto simp: is_group_key_def is_map_def simp del: PrepareWhereWithRootLogic.simps)
  next
    case l
    from l(2) have "\<not> HasSuffix key ''>''" "\<not> HasSuffix key ''<''" "\<not> HasSuffix key ''=''"
      by (auto simp: HasSuffix_def)
    with l have "leaf_parts key val = Inl InterfaceConversion"
      by (cases val) (auto simp: leaf_parts_def is_string_def)
    with l(1) show ?thesis
      by (simp add: is_group_key_def del: PrepareWhereWithRootLogic.simps)
  qed
qed

lemma where_loop_panics:
  assumes "(key, val) \<in> set filt"
      and "(is_group_key key \<and> \<not> is_map val)
           \<or> (\<not> is_group_key key \<and> HasSuffix key ''%'' \<and> \<not> is_string val)"
  shows "where_loop c filt conditions errors = Inl InterfaceConversion"
  using assms(1)
proof (induction filt arbitrary: conditions errors)
  case Nil
  then show ?case by simp
next
  case (Cons e rest)
  obtain k v where e: "e = (k, v)" by (cases e)
  show ?case
  proof (cases "(key, val) = (k, v)")
    case True
    with e show ?thesis using where_loop_bad_head [OF assms(2)] by simp
  next
    case False
    with Cons.prems e have "(key, val) \<in> set rest" by auto
    then have ih: "\<And>cs es. where_loop c rest cs es = Inl InterfaceConversion"
      using Cons.IH by blast
    show ?thesis unfolding e by (rule where_loop_step) (rule ih)
  qed
qed

text \<open>
  C10, as stated, at the filter \<^verbatim>\<open>{"[OR]%": {}}\<close>: the key ends in \<^verbatim>\<open>%\<close> and the value
  is not a string, yet the key is a group key, the value is a map and the call returns.
\<close>

theorem PrepareWhere_panics_counterexample:
  "HasSuffix ''[OR]%'' ''%'' \<and> \<not> is_string (VMap [])
   \<and> PrepareWhere (embedded NewUserCRUD) [(''[OR]%'', VMap [])] = Inr ([], [])"
  by (simp add: PrepareWhere_def str_defs is_string_def)

text \<open>
  C10, amended.  \<^verbatim>\<open>PrepareWhere\<close> panics on every filter that has an entry whose key
  equals or starts with \<^verbatim>\<open>[OR]\<close> or \<^verbatim>\<open>[AND]\<close> and whose value is not a nested map, and
  on every filter that has an entry whose key is not such a group key, ends in \<^verbatim>\<open>%\<close>
  and has a value that is not a string.
\<close>

theorem PrepareWhere_panics:
  assumes "(key, val) \<in> set filt"
      and "(is_group_key key \<and> \<not> is_map val)
           \<or> (\<not> is_group_key key \<and> HasSuffix key ''%'' \<and> \<not> is_string val)"
  shows "PrepareWhere c filt = Inl InterfaceConversion"
  by (simp add: PrepareWhere_def where_loop_panics [OF assms])

theorem PrepareWhere_panics_witness:
  "PrepareWhere (embedded NewUserCRUD) [(''id%'', VInt 1)] = Inl InterfaceConversion
   \<and> PrepareWhere (embedded NewUserCRUD) [(''[OR]'', VInt 1)] = Inl InterfaceConversion"
proof -
  have m1: "(''id%'', VInt 1) \<in> set [(''id%'', VInt 1)]" by simp
  have b1: "(is_group_key ''id%'' \<and> \<not> is_map (VInt 1))
            \<or> (\<not> is_group_key ''id%'' \<and> HasSuffix ''id%'' ''%'' \<and> \<not> is_string (VInt 1))"
    by (simp add: is_group_key_def is_string_def str_defs)
  have m2: "(''[OR]'', VInt 1) \<in> set [(''[OR]'', VInt 1)]" by simp
  have b2: "(is_group_key ''[OR]'' \<and> \<not> is_map (VInt 1))
            \<or> (\<not> is_group_key ''[OR]'' \<and> HasSuffix ''[OR]'' ''%'' \<and> \<not> is_string (VInt 1))"
    by (simp add: is_group_key_def is_map_def)
  show ?thesis
    using PrepareWhere_panics [OF m1 b1] PrepareWhere_panics [OF m2 b2] by simp
qed

section \<open>The record writers\<close>

lemmas user_defs = NewUserCRUD_def NewCRUD_def userStructure_def


lemma Create_check_None:
  "Create_check ord data = None \<longleftrightarrow>
     (\<forall>(col, properties) \<in> set ord. required properties \<longrightarrow> map_of data col \<noteq> None)"
  by (induction ord data rule: Create_check.induct) (auto simp: required_def)

lemma Create_check_Some:
  "Create_check ord data = Some err \<Longrightarrow>
     \<exists>(col, properties) \<in> set ord. required properties \<and> map_of data col = None
        \<and> err = Errorf (''field '' @ squote @ col @ squote @ '' cannot be null'')"
  by (induction ord data rule: Create_check.induct) (auto simp: required_def split: if_splits)

lemma Update_check_eq: "Update_check ord data = Create_check ord data"
  by (induction ord data rule: Update_check.induct) auto

lemma DB_Exec_StoreError: "DB_Exec db q args = (Some err, db') \<Longrightarrow> \<exists>m. err = StoreError m"
  by (auto simp: DB_Exec_def split: prod.splits)

lemma DB_Exec_calls: "calls (snd (DB_Exec db q args)) = calls db @ [ExecCall q args]"
  by (simp add: DB_Exec_def split: prod.splits)

text \<open>
  C5.  \<^verbatim>\<open>Create\<close> returns the validation error naming a field if and only if some
  descriptor column has \<^verbatim>\<open>NOT_NULL\<close> set to \<^verbatim>\<open>"true"\<close>, an empty \<^verbatim>\<open>DEFAULT\<close>,
  \<^verbatim>\<open>AUTO_INCREMENT\<close> not \<^verbatim>\<open>"true"\<close> and no entry in the input map; the field named is
  such a column, and the handle comes back as it was: no call has been made to the store.
\<close>

theorem Create_validation:
  assumes "range_order (Structure c) ord1"
  shows "((\<exists>col. fst (Create c ord1 ord2 data db)
                  = Some (Errorf (''field '' @ squote @ col @ squote @ '' cannot be null'')))
          \<longleftrightarrow> (\<exists>(col, properties) \<in> set (Structure c).
                 get_prop properties ''NOT_NULL'' = ''true'' \<and> get_prop properties ''DEFAULT'' = []
                 \<and> get_prop properties ''AUTO_INCREMENT'' \<noteq> ''true'' \<and> map_of data col = None))
       \<and> (\<forall>col. fst (Create c ord1 ord2 data db)
                  = Some (Errorf (''field '' @ squote @ col @ squote @ '' cannot be null''))
            \<longrightarrow> snd (Create c ord1 ord2 data db) = db
                \<and> (\<exists>properties. (col, properties) \<in> set (Structure c)
                     \<and> get_prop properties ''NOT_NULL'' = ''true'' \<and> get_prop properties ''DEFAULT'' = []
                     \<and> get_prop properties ''AUTO_INCREMENT'' \<noteq> ''true'' \<and> map_of data col = None))"
proof -
  from assms have s: "set ord1 = set (Structure c)" by (simp add: range_order_def)
  show ?thesis
  proof (cases "Create_check ord1 data")
    case None
    then have nomiss: "\<forall>(col, properties) \<in> set (Structure c). required properties \<longrightarrow> map_of data col \<noteq> None"
      using s by (simp add: Create_check_None)
    have "\<And>col. fst (Create c ord1 ord2 data db)
                  \<noteq> Some (Errorf (''field '' @ squote @ col @ squote @ '' cannot be null''))"
      using None by (auto simp: Create_def Let_def DB_Exec_def split: prod.splits)
    with nomiss show ?thesis by (auto simp: required_def)
  next
    case (Some err)
    from Create_check_Some [OF Some] s obtain col properties where
      cp: "(col, properties) \<in> set (Structure c)" "required properties" "map_of data col = None"
        "err = Errorf (''field '' @ squote @ col @ squote @ '' cannot be null'')"
      by auto
    have r: "Create c ord1 ord2 data db = (Some err, db)"
      using Some by (simp add: Create_def)
    have inj: "\<And>col'. ''field '' @ squote @ col' @ squote @ '' cannot be null''
                 = ''field '' @ squote @ col @ squote @ '' cannot be null'' \<Longrightarrow> col' = col"
      by simp
    show ?thesis using cp r inj by (auto simp: required_def)
  qed
qed

theorem Create_validation_witness:
  "range_order (Structure (embedded NewUserCRUD)) userStructure
   \<and> fst (Create (embedded NewUserCRUD) userStructure userStructure
            [(''email'', VStr ''no_name@example.com'')] demo_db)
       = Some (Errorf ''field 'name' cannot be null'')
   \<and> snd (Create (embedded NewUserCRUD) userStructure userStructure
            [(''email'', VStr ''no_name@example.com'')] demo_db) = demo_db"
proof -
  have h: "range_order (Structure (embedded NewUserCRUD)) userStructure"
    by (simp add: range_order_def user_defs)
  have e: "fst (Create (embedded NewUserCRUD) userStructure userStructure
            [(''email'', VStr ''no_name@example.com'')] demo_db)
       = Some (Errorf (''field '' @ squote @ ''name'' @ squote @ '' cannot be null''))"
    by (simp add: Create_def user_defs get_prop_def squote_def)
  from Create_validation [OF h, of userStructure "[(''email'', VStr ''no_name@example.com'')]" demo_db]
  have "\<forall>col. fst (Create (embedded NewUserCRUD) userStructure userStructure
            [(''email'', VStr ''no_name@example.com'')] demo_db)
          = Some (Errorf (''field '' @ squote @ col @ squote @ '' cannot be null''))
        \<longrightarrow> snd (Create (embedded NewUserCRUD) userStructure userStructure
            [(''email'', VStr ''no_name@example.com'')] demo_db) = demo_db"
    by blast
  with e have "snd (Create (embedded NewUserCRUD) userStructure userStructure
            [(''email'', VStr ''no_name@example.com'')] demo_db) = demo_db"
    by blast
  with h e show ?thesis by (simp add: squote_def)
qed

lemma Update_set_eq:
  assumes "\<And>col v. (col, v) \<in> set dord \<Longrightarrow> map_of data col = Some v"
  shows "Update_set dord data setClauses vals =
           (setClauses @ map (\<lambda>(col, v). col @ '' = ?'') dord, vals @ map snd dord)"
  using assms
proof (induction dord arbitrary: setClauses vals)
  case Nil
  then show ?case by simp
next
  case (Cons e rest)
  obtain col v where e: "e = (col, v)" by (cases e)
  from Cons.prems e have "map_of data col = Some v" by simp
  moreover have "\<And>col v. (col, v) \<in> set rest \<Longrightarrow> map_of data col = Some v"
    using Cons.prems by simp
  ultimately show ?case using Cons.IH e by simp
qed

text \<open>
  C6.  \<^verbatim>\<open>Update\<close> makes the same check as \<^verbatim>\<open>Create\<close>, over the whole descriptor:
  whenever a required column is absent from the input map the call is rejected with the
  validation error for such a column and makes no call to the store, whatever the id and
  whichever columns are supplied.  Otherwise it executes one statement whose SET clause
  lists exactly the keys of the input map, each once, followed by \<^verbatim>\<open>WHERE id = ?\<close>, with
  the values of the map and then the id as arguments.
\<close>

theorem Update_validation:
  assumes "range_order (Structure c) ord1" and "range_order data dord"
  shows "Update_check ord1 data = Create_check ord1 data
       \<and> ((\<exists>(col, properties) \<in> set (Structure c).
              get_prop properties ''NOT_NULL'' = ''true'' \<and> get_prop properties ''DEFAULT'' = []
              \<and> get_prop properties ''AUTO_INCREMENT'' \<noteq> ''true'' \<and> map_of data col = None)
           \<longrightarrow> (\<exists>(col, properties) \<in> set (Structure c).
                 get_prop properties ''NOT_NULL'' = ''true'' \<and> get_prop properties ''DEFAULT'' = []
                 \<and> get_prop properties ''AUTO_INCREMENT'' \<noteq> ''true'' \<and> map_of data col = None
                 \<and> Update c ord1 dord id' data db
                     = (Some (Errorf (''field '' @ squote @ col @ squote @ '' cannot be null'')), db)))
       \<and> (\<not> (\<exists>(col, properties) \<in> set (Structure c).
              get_prop properties ''NOT_NULL'' = ''true'' \<and> get_prop properties ''DEFAULT'' = []
              \<and> get_prop properties ''AUTO_INCREMENT'' \<noteq> ''true'' \<and> map_of data col = None)
           \<longrightarrow> Update c ord1 dord id' data db
                 = DB_Exec db (''UPDATE '' @ Table c @ '' SET ''
                                @ Join (map (\<lambda>col. col @ '' = ?'') (map fst dord)) '', ''
                                @ '' WHERE id = ?'')
                     (map snd dord @ [VStr id'])
               \<and> distinct (map fst dord) \<and> set (map fst dord) = dom (map_of data))"
proof -
  from assms(1) have s: "set ord1 = set (Structure c)" by (simp add: range_order_def)
  have eq: "Update_check ord1 data = Create_check ord1 data" by (rule Update_check_eq)
  have set_eq: "Update_set dord data [] [] = (map (\<lambda>(col, v). col @ '' = ?'') dord, map snd dord)"
    using Update_set_eq [of dord data "[]" "[]"] range_order_map_of [OF assms(2)] by simp
  have m: "map (\<lambda>(col, v). col @ '' = ?'') dord = map (\<lambda>col. col @ '' = ?'') (map fst dord)"
    by (simp add: case_prod_beta)
  have d: "distinct (map fst dord)" using assms(2) by (simp add: range_order_def)
  have dm: "set (map fst dord) = dom (map_of data)"
    using assms(2) by (simp add: range_order_def dom_map_of_conv_image_fst)
  show ?thesis
  proof (cases "Create_check ord1 data")
    case None
    then have nomiss: "\<forall>(col, properties) \<in> set (Structure c). required properties \<longrightarrow> map_of data col \<noteq> None"
      using s by (simp add: Create_check_None)
    have "Update c ord1 dord id' data db
            = DB_Exec db (''UPDATE '' @ Table c @ '' SET ''
                                @ Join (map (\<lambda>col. col @ '' = ?'') (map fst dord)) '', ''
                                @ '' WHERE id = ?'')
                     (map snd dord @ [VStr id'])"
      using None eq set_eq m by (simp add: Update_def)
    with nomiss eq d dm show ?thesis by (auto simp: required_def)
  next
    case (Some err)
    from Create_check_Some [OF Some] s obtain col properties where
      cp: "(col, properties) \<in> set (Structure c)" "required properties" "map_of data col = None"
        "err = Errorf (''field '' @ squote @ col @ squote @ '' cannot be null'')"
      by auto
    have r: "Update c ord1 dord id' data db = (Some err, db)"
      using Some eq by (simp add: Update_def)
    from cp r have "\<exists>(col, properties) \<in> set (Structure c).
                 get_prop properties ''NOT_NULL'' = ''true'' \<and> get_prop properties ''DEFAULT'' = []
                 \<and> get_prop properties ''AUTO_INCREMENT'' \<noteq> ''true'' \<and> map_of data col = None
                 \<and> Update c ord1 dord id' data db
                     = (Some (Errorf (''field '' @ squote @ col @ squote @ '' cannot be null'')), db)"
      by (auto simp: required_def)
    then show ?thesis using eq by blast
  qed
qed

theorem Update_validation_witness:
  "range_order (Structure (embedded NewUserCRUD)) userStructure
   \<and> range_order ([] :: (string \<times> any) list) []
   \<and> (\<exists>(col, properties) \<in> set (Structure (embedded NewUserCRUD)).
         map_of ([] :: (string \<times> any) list) col = None
         \<and> Update (embedded NewUserCRUD) userStructure [] ''2'' [] demo_db
             = (Some (Errorf (''field '' @ squote @ col @ squote @ '' cannot be null'')), demo_db))
   \<and> range_order [(''name'', VStr ''Updated Name''), (''email'', VStr ''updated.email@example.com'')]
        [(''email'', VStr ''updated.email@example.com''), (''name'', VStr ''Updated Name'')]
   \<and> calls (snd (Update (embedded NewUserCRUD) userStructure
                   [(''email'', VStr ''updated.email@example.com''), (''name'', VStr ''Updated Name'')]
                   ''1''
                   [(''name'', VStr ''Updated Name''), (''email'', VStr ''updated.email@example.com'')]
                   demo_db))
       = [ExecCall ''UPDATE users SET email = ?, name = ? WHERE id = ?''
            [VStr ''updated.email@example.com'', VStr ''Updated Name'', VStr ''1'']]"
proof -
  let ?c = "embedded NewUserCRUD"
  let ?data = "[(''name'', VStr ''Updated Name''), (''email'', VStr ''updated.email@example.com'')]"
  let ?dord = "[(''email'', VStr ''updated.email@example.com''), (''name'', VStr ''Updated Name'')]"
  have h1: "range_order (Structure ?c) userStructure"
    by (simp add: range_order_def user_defs)
  have h2: "range_order ([] :: (string \<times> any) list) []"
    by (simp add: range_order_def)
  have h3: "\<exists>(col, properties) \<in> set (Structure ?c).
              get_prop properties ''NOT_NULL'' = ''true'' \<and> get_prop properties ''DEFAULT'' = []
              \<and> get_prop properties ''AUTO_INCREMENT'' \<noteq> ''true''
              \<and> map_of ([] :: (string \<times> any) list) col = None"
    by (simp add: user_defs get_prop_def)
  from Update_validation [OF h1 h2, of "''2''" demo_db] h3
  have "\<exists>(col, properties) \<in> set (Structure ?c).
                 get_prop properties ''NOT_NULL'' = ''true'' \<and> get_prop properties ''DEFAULT'' = []
                 \<and> get_prop properties ''AUTO_INCREMENT'' \<noteq> ''true''
                 \<and> map_of ([] :: (string \<times> any) list) col = None
                 \<and> Update ?c userStructure [] ''2'' [] demo_db
                     = (Some (Errorf (''field '' @ squote @ col @ squote @ '' cannot be null'')), demo_db)"
    by blast
  then have r: "\<exists>(col, properties) \<in> set (Structure ?c).
         map_of ([] :: (string \<times> any) list) col = None
         \<and> Update ?c userStructure [] ''2'' [] demo_db
             = (Some (Errorf (''field '' @ squote @ col @ squote @ '' cannot be null'')), demo_db)"
    by blast
  have h4: "range_order ?data ?dord"
    by (simp add: range_order_def insert_commute)
  have h5: "\<not> (\<exists>(col, properties) \<in> set (Structure ?c).
              get_prop properties ''NOT_NULL'' = ''true'' \<and> get_prop properties ''DEFAULT'' = []
              \<and> get_prop properties ''AUTO_INCREMENT'' \<noteq> ''true''
              \<and> map_of ?data col = None)"
    by (simp add: user_defs get_prop_def)
  from Update_validation [OF h1 h4, of "''1''" demo_db] h5
  have "Update ?c userStructure ?dord ''1'' ?data demo_db
          = DB_Exec demo_db (''UPDATE '' @ Table ?c @ '' SET ''
                                @ Join (map (\<lambda>col. col @ '' = ?'') (map fst ?dord)) '', ''
                                @ '' WHERE id = ?'')
                     (map snd ?dord @ [VStr ''1''])"
    by blast
  then have s: "calls (snd (Update ?c userStructure ?dord ''1'' ?data demo_db))
       = [ExecCall ''UPDATE users SET email = ?, name = ? WHERE id = ?''
            [VStr ''updated.email@example.com'', VStr ''Updated Name'', VStr ''1'']]"
    by (simp add: DB_Exec_calls user_defs demo_db_def)
  from h1 h2 r h4 s show ?thesis by blast
qed



section \<open>The schema synchronizer\<close>

lemma create_loop_eq:
  "create_loop ord fds pk =
     (fds @ map (\<lambda>(col, properties). col @ '' '' @ get_prop properties ''TYPE'' @ column_attrs properties) ord,
      (case filter (\<lambda>(col, properties). get_prop properties ''AUTO_INCREMENT'' = ''true'') ord of
         [] \<Rightarrow> pk | xs \<Rightarrow> fst (last xs)))"
  by (induction ord fds pk rule: create_loop.induct) (auto split: list.splits)

text \<open>
  C9.  For a descriptor in which no column has \<^verbatim>\<open>AUTO_INCREMENT\<close> set to \<^verbatim>\<open>"true"\<close>,
  when the table does not exist, \<^verbatim>\<open>Synchronize\<close> executes a create statement whose
  primary-key clause has an empty column name: the statement ends in
  \<^verbatim>\<open>, PRIMARY KEY ())\<close>.
\<close>

theorem Synchronize_create_no_auto_increment:
  assumes "range_order (Structure c) ord1"
      and "\<forall>(col, properties) \<in> set (Structure c). get_prop properties ''AUTO_INCREMENT'' \<noteq> ''true''"
      and "query_row_int (driver db) (exists_query c) (store db) = Inr 0"
  shows "calls (snd (Synchronize c ord1 ord2 db))
           = calls db @ [QueryRowCall (exists_query c),
                         ExecCall (''CREATE TABLE '' @ Table c @ '' (''
                                    @ Join (map (\<lambda>(col, properties). col @ '' ''
                                               @ get_prop properties ''TYPE'' @ column_attrs properties) ord1) '', ''
                                    @ '', PRIMARY KEY ())'') []]"
proof -
  from assms(1,2) have "filter (\<lambda>(col, properties). get_prop properties ''AUTO_INCREMENT'' = ''true'') ord1 = []"
    by (auto simp: range_order_def filter_empty_conv)
  then have q: "create_query c ord1 = ''CREATE TABLE '' @ Table c @ '' (''
                                    @ Join (map (\<lambda>(col, properties). col @ '' ''
                                               @ get_prop properties ''TYPE'' @ column_attrs properties) ord1) '', ''
                                    @ '', PRIMARY KEY ())''"
    by (simp add: create_query_def create_loop_eq)
  show ?thesis
    using assms(3) unfolding q [symmetric]
    by (simp add: Synchronize_def Let_def DB_QueryRow_Scan_def DB_Exec_def split: prod.splits option.splits)
qed

theorem Synchronize_create_no_auto_increment_witness:
  "range_order (Structure (NewCRUD ''notes'' [(''title'', [(''TYPE'', ''text'')])]))
     [(''title'', [(''TYPE'', ''text'')])]
   \<and> calls (snd (Synchronize (NewCRUD ''notes'' [(''title'', [(''TYPE'', ''text'')])])
                   [(''title'', [(''TYPE'', ''text'')])] [(''title'', [(''TYPE'', ''text'')])] demo_db))
       = [QueryRowCall (exists_query (NewCRUD ''notes'' [(''title'', [(''TYPE'', ''text'')])])),
          ExecCall ''CREATE TABLE notes (title text, PRIMARY KEY ())'' []]"
proof -
  let ?c = "NewCRUD ''notes'' [(''title'', [(''TYPE'', ''text'')])]"
  have h1: "range_order (Structure ?c) [(''title'', [(''TYPE'', ''text'')])]"
    by (simp add: range_order_def NewCRUD_def)
  have h2: "\<forall>(col, properties) \<in> set (Structure ?c). get_prop properties ''AUTO_INCREMENT'' \<noteq> ''true''"
    by (simp add: NewCRUD_def get_prop_def)
  have h3: "query_row_int (driver demo_db) (exists_query ?c) (store demo_db) = Inr 0"
    by (simp add: demo_db_def demo_driver_def)
  show ?thesis
    using h1 Synchronize_create_no_auto_increment [OF h1 h2 h3, of "[(''title'', [(''TYPE'', ''text'')])]"]
    by (simp add: NewCRUD_def get_prop_def column_attrs_def demo_db_def)
qed








end
